theory Spec2Isabelle
  imports Main "HOL-Library.Sublist"
begin

section \<open>Strings\<close>

text \<open>
  A Go string is a byte sequence, here a \<^typ>\<open>string\<close>. The functions of package
  \<^verbatim>\<open>strings\<close> that \<^verbatim>\<open>spf.go\<close> calls are written out on bytes. \<^verbatim>\<open>ToLower\<close> and
  \<^verbatim>\<open>TrimSpace\<close> are exact on ASCII text; bytes from \<^verbatim>\<open>0x80\<close> on are left alone.
\<close>

definition strings_HasPrefix :: "string \<Rightarrow> string \<Rightarrow> bool" where
  "strings_HasPrefix s pre = prefix pre s"

fun strings_Contains :: "string \<Rightarrow> string \<Rightarrow> bool" where
  "strings_Contains [] substr = (substr = [])"
| "strings_Contains (c # cs) substr = (prefix substr (c # cs) \<or> strings_Contains cs substr)"

text \<open>
  \<^verbatim>\<open>strings.Split(s, sep)\<close> for a non-empty separator: cut at every occurrence of
  \<^verbatim>\<open>sep\<close>, scanning from the left; \<^verbatim>\<open>cur\<close> is the piece being read. An empty separator
  explodes the string.
\<close>

function genSplit :: "string \<Rightarrow> string \<Rightarrow> string \<Rightarrow> string list" where
  "genSplit sep cur [] = [cur]"
| "genSplit sep cur (c # cs) =
     (if sep \<noteq> [] \<and> prefix sep (c # cs)
      then cur # genSplit sep [] (drop (length sep) (c # cs))
      else genSplit sep (cur @ [c]) cs)"
  by pat_completeness auto
termination
  by (relation "measure (\<lambda>(sep, cur, s). length s)") auto

definition strings_Split :: "string \<Rightarrow> string \<Rightarrow> string list" where
  "strings_Split s sep = (if sep = [] then map (\<lambda>c. [c]) s else genSplit sep [] s)"

text \<open>
  \<^verbatim>\<open>strings.Replace(s, old, new, -1)\<close>: every non-overlapping occurrence of \<^verbatim>\<open>old\<close>,
  from the left, becomes \<^verbatim>\<open>new\<close>. An empty \<^verbatim>\<open>old\<close> matches before every byte and at the
  end.
\<close>

function replaceAll :: "string \<Rightarrow> string \<Rightarrow> string \<Rightarrow> string" where
  "replaceAll old new [] = []"
| "replaceAll old new (c # cs) =
     (if old \<noteq> [] \<and> prefix old (c # cs)
      then new @ replaceAll old new (drop (length old) (c # cs))
      else c # replaceAll old new cs)"
  by pat_completeness auto
termination
  by (relation "measure (\<lambda>(old, new, s). length s)") auto

definition strings_Replace :: "string \<Rightarrow> string \<Rightarrow> string \<Rightarrow> string" where
  "strings_Replace s old new =
     (if old = [] then new @ concat (map (\<lambda>c. c # new) s) else replaceAll old new s)"

definition toLowerByte :: "char \<Rightarrow> char" where
  "toLowerByte c =
     (case map_of (zip ''ABCDEFGHIJKLMNOPQRSTUVWXYZ'' ''abcdefghijklmnopqrstuvwxyz'') c of
        None \<Rightarrow> c
      | Some l \<Rightarrow> l)"

definition strings_ToLower :: "string \<Rightarrow> string" where
  "strings_ToLower s = map toLowerByte s"



text \<open>
  Indexing a slice panics out of range; \<^verbatim>\<open>None\<close> is the panic.
\<close>

definition index :: "'a list \<Rightarrow> int \<Rightarrow> 'a option" where
  "index xs i = (if 0 \<le> i \<and> i < int (length xs) then Some (xs ! nat i) else None)"

section \<open>Errors, results and the outside world\<close>

text \<open>
  \<^verbatim>\<open>ErrNoSPFRecords\<close> is the package variable; the three other constructors without an
  argument are the \<^verbatim>\<open>errors.New\<close> values of \<^verbatim>\<open>findSPFRecord\<close>, \<^verbatim>\<open>processEmail\<close> and
  \<^verbatim>\<open>parseOtherRecord\<close>. \<^verbatim>\<open>LibError\<close> is an error of the standard library (\<^verbatim>\<open>net\<close>,
  \<^verbatim>\<open>net/mail\<close>) with its message: it is never equal to \<^verbatim>\<open>ErrNoSPFRecords\<close>.
\<close>

datatype error =
    ErrNoSPFRecords
  | TooManySPFRecordsFound
  | NotEnoughOrTooManyAtSymbols
  | UnknownRecordForSPF
  | LibError string

text \<open>
  A call either returns or panics. A call that never returns (an \<^verbatim>\<open>include\<close> cycle) is
  \<^verbatim>\<open>None\<close> of the fuel-indexed functions below.
\<close>

datatype 'a outcome = Panic | Return 'a

text \<open>
  The DNS lookups of package \<^verbatim>\<open>net\<close> are a parameter: each answers a name with an error
  message or a list. \<^verbatim>\<open>LookupIP\<close> gives the addresses as \<^verbatim>\<open>IP.String()\<close> prints them,
  \<^verbatim>\<open>LookupMX\<close> the \<^verbatim>\<open>Host\<close> fields. Every lookup a call makes is recorded, in order.
\<close>

record resolver =
  LookupTXT :: "string \<Rightarrow> string + string list"
  LookupIP :: "string \<Rightarrow> string + string list"
  LookupMX :: "string \<Rightarrow> string + string list"

datatype query = QueryTXT string | QueryIP string | QueryMX string

text \<open>
  \<^verbatim>\<open>net.ParseCIDR\<close>, \<^verbatim>\<open>net.ParseIP\<close> (\<^verbatim>\<open>None\<close> is the nil address) and
  \<^verbatim>\<open>(*IPNet).Contains\<close> are a parameter too.
\<close>

record ('n, 'a) netlib =
  ParseCIDR :: "string \<Rightarrow> string + 'n"
  ParseIP :: "string \<Rightarrow> 'a option"
  Contains :: "'n \<Rightarrow> 'a option \<Rightarrow> bool"

section \<open>The checker\<close>

record spfChecker =
  Cache :: "string \<rightharpoonup> string list"

definition NewSPFChecker :: spfChecker where
  "NewSPFChecker = \<lparr>Cache = Map.empty\<rparr>"

definition DumpCache :: "spfChecker \<Rightarrow> spfChecker" where
  "DumpCache sc = sc\<lparr>Cache := Map.empty\<rparr>"

text \<open>
  Go's \<^verbatim>\<open>(value, error)\<close> results are pairs; \<^verbatim>\<open>None\<close> is the nil error.
\<close>

definition findSPFRecord :: "string list \<Rightarrow> string list \<times> error option" where
  "findSPFRecord txtRecords =
     (let spfRecords = filter (\<lambda>record. strings_HasPrefix record ''v=spf1'') txtRecords
      in if length spfRecords = 0 \<or> length spfRecords > 1
         then ([], Some TooManySPFRecordsFound)
         else (spfRecords, None))"

definition LookupSPFRecords ::
  "resolver \<Rightarrow> spfChecker \<Rightarrow> string \<Rightarrow> (string list \<times> error option) \<times> spfChecker \<times> query list"
where
  "LookupSPFRecords r sc domain =
     (case Cache sc domain of
        None \<Rightarrow>
          (case LookupTXT r domain of
             Inl msg \<Rightarrow> (([], Some (LibError msg)), sc, [QueryTXT domain])
           | Inr txtRecords \<Rightarrow>
               if length txtRecords = 0
               then (([], Some ErrNoSPFRecords), sc, [QueryTXT domain])
               else
                 (case findSPFRecord txtRecords of
                    (spfRs, Some err) \<Rightarrow> (([], Some err), sc, [QueryTXT domain])
                  | (spfRs, None) \<Rightarrow>
                      if length spfRs = 0
                      then (([], Some ErrNoSPFRecords), sc, [QueryTXT domain])
                      else ((spfRs, None), sc\<lparr>Cache := (Cache sc)(domain \<mapsto> spfRs)\<rparr>,
                            [QueryTXT domain])))
      | Some spfRs \<Rightarrow> ((spfRs, None), sc, []))"

subsection \<open>Expanding the mechanisms\<close>

text \<open>
  \<^verbatim>\<open>parseOtherRecord(domain, "a")\<close>; the \<^verbatim>\<open>mx\<close> branch calls it for every host.
\<close>

definition parseARecord :: "resolver \<Rightarrow> string \<Rightarrow> (string list \<times> error option) \<times> query list" where
  "parseARecord r domain =
     (case LookupIP r domain of
        Inl msg \<Rightarrow> (([], Some (LibError msg)), [QueryIP domain])
      | Inr ip \<Rightarrow> ((ip, None), [QueryIP domain]))"

fun parseMXHosts ::
  "resolver \<Rightarrow> string list \<Rightarrow> string list \<Rightarrow> (string list \<times> error option) \<times> query list"
where
  "parseMXHosts r [] ipList = ((ipList, None), [])"
| "parseMXHosts r (host # hosts) ipList =
     (case parseARecord r host of
        ((MXARecords, Some err), qs) \<Rightarrow> (([], Some err), qs)
      | ((MXARecords, None), qs) \<Rightarrow>
          (case parseMXHosts r hosts (ipList @ MXARecords) of
             (res, qs') \<Rightarrow> (res, qs @ qs')))"

definition parseOtherRecord ::
  "resolver \<Rightarrow> string \<Rightarrow> string \<Rightarrow> (string list \<times> error option) \<times> query list"
where
  "parseOtherRecord r domain record =
     (if record = ''a'' then parseARecord r domain
      else if record = ''mx'' then
        (case LookupMX r domain of
           Inl msg \<Rightarrow> (([], Some (LibError msg)), [QueryMX domain])
         | Inr hosts \<Rightarrow>
             (case parseMXHosts r hosts [] of (res, qs) \<Rightarrow> (res, QueryMX domain # qs)))
      else (([], Some UnknownRecordForSPF), []))"

text \<open>
  \<^verbatim>\<open>getIPsForRecord\<close>: the loop over the sections of one record, with the addresses
  gathered so far. The fuel bounds the depth of \<^verbatim>\<open>include\<close>: the recursive call takes one
  unit, and \<^verbatim>\<open>None\<close> says that it ran out. The error of the recursive call is assigned and
  not read; its list is appended whatever it is.
\<close>

fun getIPsLoop ::
  "resolver \<Rightarrow> nat \<Rightarrow> string \<Rightarrow> string list \<Rightarrow> string list
     \<Rightarrow> ((string list \<times> error option) \<times> query list) outcome option"
where
  "getIPsLoop r n domain [] cidrIPs = Some (Return ((cidrIPs, None), []))"
| "getIPsLoop r n domain (element # rest) cidrIPs =
     (if strings_HasPrefix ''v=spf1'' element then getIPsLoop r n domain rest cidrIPs
      else if strings_HasPrefix element ''ip4'' then
        getIPsLoop r n domain rest (cidrIPs @ [strings_Replace element ''ip4:'' ''''])
      else if strings_HasPrefix element ''include'' then
        (let record = strings_Replace element ''include:'' '''' in
         case LookupTXT r record of
           Inl msg \<Rightarrow> Some (Return (([], Some (LibError msg)), [QueryTXT record]))
         | Inr txtRecords \<Rightarrow>
             (case findSPFRecord txtRecords of
                (spfRecordList, Some err) \<Rightarrow> Some (Return (([], Some err), [QueryTXT record]))
              | (spfRecordList, None) \<Rightarrow>
                  (case index spfRecordList 0 of
                     None \<Rightarrow> Some Panic
                   | Some spfRecord \<Rightarrow>
                       (case n of
                          0 \<Rightarrow> None
                        | Suc m \<Rightarrow>
                            (case getIPsLoop r m record (strings_Split spfRecord '' '') [] of
                               None \<Rightarrow> None
                             | Some Panic \<Rightarrow> Some Panic
                             | Some (Return ((recursiveList, err), qs)) \<Rightarrow>
                                 (case getIPsLoop r n domain rest (cidrIPs @ recursiveList) of
                                    None \<Rightarrow> None
                                  | Some Panic \<Rightarrow> Some Panic
                                  | Some (Return (res, qs')) \<Rightarrow>
                                      Some (Return (res, QueryTXT record # qs @ qs'))))))))
      else if strings_ToLower element = ''a'' \<or> strings_ToLower element = ''mx'' then
        (case parseOtherRecord r domain element of
           ((otherRecord, Some err), qs) \<Rightarrow> Some (Return (([], Some err), qs))
         | ((otherRecord, None), qs) \<Rightarrow>
             (case getIPsLoop r n domain rest (cidrIPs @ otherRecord) of
                None \<Rightarrow> None
              | Some Panic \<Rightarrow> Some Panic
              | Some (Return (res, qs')) \<Rightarrow> Some (Return (res, qs @ qs'))))
      else getIPsLoop r n domain rest cidrIPs)"

definition getIPsForRecord ::
  "resolver \<Rightarrow> nat \<Rightarrow> string \<Rightarrow> string
     \<Rightarrow> ((string list \<times> error option) \<times> query list) outcome option"
where
  "getIPsForRecord r n domain record = getIPsLoop r n domain (strings_Split record '' '') []"

subsection \<open>Validate\<close>

text \<open>
  The loop at the end of \<^verbatim>\<open>Validate\<close>: each element gets a prefix length when it has
  none, is parsed as a CIDR block, and the block is asked for the address.
\<close>

definition withCidr :: "string \<Rightarrow> string" where
  "withCidr element =
     (if \<not> strings_Contains element ''/'' then
        (if \<not> strings_Contains element '':'' then element @ ''/32'' else element @ ''/128'')
      else element)"

fun checkIPs :: "('n, 'a) netlib \<Rightarrow> string \<Rightarrow> string list \<Rightarrow> bool \<times> error option" where
  "checkIPs lib ip [] = (False, None)"
| "checkIPs lib ip (element # rest) =
     (case ParseCIDR lib (withCidr element) of
        Inl msg \<Rightarrow> (False, Some (LibError msg))
      | Inr cidrnet \<Rightarrow>
          if Contains lib cidrnet (ParseIP lib ip) then (True, None)
          else checkIPs lib ip rest)"

text \<open>
  \<^verbatim>\<open>(*spfChecker).Validate\<close>. The result is the pair returned, the checker after the call
  and the lookups made. The package-level \<^verbatim>\<open>Validate\<close> is this function on the checker
  \<^verbatim>\<open>looker\<close>, which starts as \<^verbatim>\<open>NewSPFChecker\<close>.
\<close>

definition Validate ::
  "resolver \<Rightarrow> ('n, 'a) netlib \<Rightarrow> nat \<Rightarrow> spfChecker \<Rightarrow> string \<Rightarrow> string
     \<Rightarrow> ((bool \<times> error option) \<times> spfChecker \<times> query list) outcome option"
where
  "Validate r lib n sc ip domain =
     (case LookupSPFRecords r sc domain of
        ((spfRecordList, Some err), sc', qs) \<Rightarrow>
          if err = ErrNoSPFRecords then Some (Return ((False, None), sc', qs))
          else Some (Return ((False, Some err), sc', qs))
      | ((spfRecordList, None), sc', qs) \<Rightarrow>
          (case index spfRecordList 0 of
             None \<Rightarrow> Some Panic
           | Some spfRecord \<Rightarrow>
               (let splitSPFRecord = strings_Split spfRecord '' '' in
                case index splitSPFRecord (int (length splitSPFRecord) - 1) of
                  None \<Rightarrow> Some Panic
                | Some allRecord \<Rightarrow>
                    (let allRecordSplit = strings_Split allRecord ''a'' in
                     case index allRecordSplit 0 of
                       None \<Rightarrow> Some Panic
                     | Some allRecord' \<Rightarrow>
                         (case getIPsForRecord r n domain spfRecord of
                            None \<Rightarrow> None
                          | Some Panic \<Rightarrow> Some Panic
                          | Some (Return ((ips, Some err), qs')) \<Rightarrow>
                              Some (Return ((False, Some err), sc', qs @ qs'))
                          | Some (Return ((ips, None), qs')) \<Rightarrow>
                              Some (Return (checkIPs lib ip ips, sc', qs @ qs')))))))"

subsection \<open>The domain of an e-mail address\<close>

text \<open>
  \<^verbatim>\<open>mail.ParseAddress\<close> is a parameter: it answers with an error message or with the
  parsed \<^verbatim>\<open>mail.Address\<close>.
\<close>

record address =
  Name :: string
  Address :: string



section \<open>An instance of the address library: dotted-quad IPv4\<close>

text \<open>
  For concrete runs, the IPv4 part of \<^verbatim>\<open>net.ParseIP\<close>, \<^verbatim>\<open>net.ParseCIDR\<close> and
  \<^verbatim>\<open>Contains\<close>: four decimal fields from 0 to 255 without leading zeros, a decimal
  prefix length up to 32, and a block that contains the addresses agreeing with it on
  the leading bits. An address is the number of its 32 bits; a block is its address and
  its prefix length. Text in IPv6 notation is not parsed by this instance.
\<close>

definition digit :: "char \<Rightarrow> int option" where
  "digit c = map_of (zip ''0123456789'' [0, 1, 2, 3, 4, 5, 6, 7, 8, 9]) c"

fun dtoi :: "int \<Rightarrow> string \<Rightarrow> int option" where
  "dtoi n [] = Some n"
| "dtoi n (c # cs) = (case digit c of None \<Rightarrow> None | Some d \<Rightarrow> dtoi (n * 10 + d) cs)"

definition octet :: "string \<Rightarrow> int option" where
  "octet s =
     (if s = [] \<or> (length s > 1 \<and> hd s = CHR ''0'') then None
      else case dtoi 0 s of None \<Rightarrow> None | Some n \<Rightarrow> if n > 255 then None else Some n)"

definition ipv4_ParseIP :: "string \<Rightarrow> int option" where
  "ipv4_ParseIP s =
     (case map octet (strings_Split s ''.'') of
        [Some a, Some b, Some c, Some d] \<Rightarrow> Some (((a * 256 + b) * 256 + c) * 256 + d)
      | _ \<Rightarrow> None)"

definition ipv4_ParseCIDR :: "string \<Rightarrow> string + int \<times> nat" where
  "ipv4_ParseCIDR s =
     (if \<not> strings_Contains s ''/'' then Inl (''invalid CIDR address: '' @ s)
      else
        (let addr = takeWhile (\<lambda>c. c \<noteq> CHR ''/'') s;
             mask = tl (dropWhile (\<lambda>c. c \<noteq> CHR ''/'') s)
         in case (ipv4_ParseIP addr, if mask = [] then None else dtoi 0 mask) of
              (Some ip, Some n) \<Rightarrow>
                if n > 32 then Inl (''invalid CIDR address: '' @ s)
                else Inr ((ip div 2 ^ (32 - nat n)) * 2 ^ (32 - nat n), nat n)
            | _ \<Rightarrow> Inl (''invalid CIDR address: '' @ s)))"

definition ipv4_Contains :: "int \<times> nat \<Rightarrow> int option \<Rightarrow> bool" where
  "ipv4_Contains cidrnet ip =
     (case ip of
        None \<Rightarrow> False
      | Some x \<Rightarrow> x div 2 ^ (32 - snd cidrnet) = fst cidrnet div 2 ^ (32 - snd cidrnet))"

definition ipv4lib :: "(int \<times> nat, int) netlib" where
  "ipv4lib = \<lparr>ParseCIDR = ipv4_ParseCIDR, ParseIP = ipv4_ParseIP, Contains = ipv4_Contains\<rparr>"

section \<open>Checker states, a variant of Validate, and sample zones\<close>

text \<open>
  A cache is sound for a resolver when every entry is what \<^verbatim>\<open>LookupSPFRecords\<close> would
  store for that name: the \<^verbatim>\<open>v=spf1\<close> record that \<^verbatim>\<open>findSPFRecord\<close> picks from the
  name's TXT records. The new checker's cache is sound, and \<^verbatim>\<open>Validate\<close> and
  \<^verbatim>\<open>DumpCache\<close> keep it sound, so long as the resolver's answers do not change.
\<close>

definition cacheOK :: "resolver \<Rightarrow> spfChecker \<Rightarrow> bool" where
  "cacheOK r sc =
     (\<forall>domain spfRs. Cache sc domain = Some spfRs \<longrightarrow>
        (\<exists>txtRecords. LookupTXT r domain = Inr txtRecords \<and>
           findSPFRecord txtRecords = (spfRs, None)))"

text \<open>
  \<^verbatim>\<open>Validate\<close> with the four statements on \<^verbatim>\<open>splitSPFRecord\<close> and \<^verbatim>\<open>allRecord\<close> taken out.
\<close>

definition Validate_without_allRecord ::
  "resolver \<Rightarrow> ('n, 'a) netlib \<Rightarrow> nat \<Rightarrow> spfChecker \<Rightarrow> string \<Rightarrow> string
     \<Rightarrow> ((bool \<times> error option) \<times> spfChecker \<times> query list) outcome option"
where
  "Validate_without_allRecord r lib n sc ip domain =
     (case LookupSPFRecords r sc domain of
        ((spfRecordList, Some err), sc', qs) \<Rightarrow>
          if err = ErrNoSPFRecords then Some (Return ((False, None), sc', qs))
          else Some (Return ((False, Some err), sc', qs))
      | ((spfRecordList, None), sc', qs) \<Rightarrow>
          (case index spfRecordList 0 of
             None \<Rightarrow> Some Panic
           | Some spfRecord \<Rightarrow>
               (case getIPsForRecord r n domain spfRecord of
                  None \<Rightarrow> None
                | Some Panic \<Rightarrow> Some Panic
                | Some (Return ((ips, Some err), qs')) \<Rightarrow>
                    Some (Return ((False, Some err), sc', qs @ qs'))
                | Some (Return ((ips, None), qs')) \<Rightarrow>
                    Some (Return (checkIPs lib ip ips, sc', qs @ qs')))))"

text \<open>
  A resolver that answers the TXT lookups of the listed names and fails on every other
  lookup.
\<close>

definition zone :: "(string \<times> string list) list \<Rightarrow> resolver" where
  "zone txts =
     \<lparr>LookupTXT = (\<lambda>name. case map_of txts name of
                              None \<Rightarrow> Inl ''no such host''
                            | Some records \<Rightarrow> Inr records),
      LookupIP = (\<lambda>name. Inl ''no such host''),
      LookupMX = (\<lambda>name. Inl ''no such host'')\<rparr>"

text \<open>
  An element misses an address when it parses as a block that does not contain the
  address; the loop of \<^verbatim>\<open>Validate\<close> goes past such an element.
\<close>

definition misses :: "('n, 'a) netlib \<Rightarrow> string \<Rightarrow> string \<Rightarrow> bool" where
  "misses lib ip element =
     (case ParseCIDR lib (withCidr element) of
        Inl msg \<Rightarrow> False
      | Inr cidrnet \<Rightarrow> \<not> Contains lib cidrnet (ParseIP lib ip))"


section \<open>Basic facts\<close>

text \<open>The definitions that a concrete run unfolds.\<close>

lemmas run_defs =
  Validate_def LookupSPFRecords_def NewSPFChecker_def findSPFRecord_def strings_HasPrefix_def
  strings_Split_def strings_Replace_def index_def getIPsForRecord_def withCidr_def
  strings_ToLower_def toLowerByte_def parseOtherRecord_def parseARecord_def zone_def

lemmas ipv4_defs =
  ipv4lib_def ipv4_ParseCIDR_def ipv4_ParseIP_def ipv4_Contains_def octet_def digit_def

lemma genSplit_not_Nil: "genSplit sep cur s \<noteq> []"
  by (induction sep cur s rule: genSplit.induct) auto

lemma strings_Split_not_Nil: "sep \<noteq> [] \<Longrightarrow> strings_Split s sep \<noteq> []"
  by (simp add: strings_Split_def genSplit_not_Nil)

lemma index_first: "xs \<noteq> [] \<Longrightarrow> index xs 0 = Some (hd xs)"
  by (cases xs) (simp_all add: index_def)

lemma index_last: "xs \<noteq> [] \<Longrightarrow> index xs (int (length xs) - 1) = Some (last xs)"
  by (cases xs rule: rev_cases) (simp_all add: index_def nth_append)

lemma length_one: "xs \<noteq> [] \<Longrightarrow> \<not> Suc 0 < length xs \<Longrightarrow> \<exists>x. xs = [x]"
  by (cases xs) auto

lemma findSPFRecord_single:
  "findSPFRecord txtRecords = (spfRs, None) \<Longrightarrow>
     \<exists>record. spfRs = [record] \<and>
       filter (\<lambda>record. strings_HasPrefix record ''v=spf1'') txtRecords = [record]"
  unfolding findSPFRecord_def Let_def
  by (auto split: if_splits dest: length_one)

lemma findSPFRecord_error:
  "findSPFRecord txtRecords = (spfRs, Some err) \<Longrightarrow> spfRs = [] \<and> err = TooManySPFRecordsFound"
  unfolding findSPFRecord_def Let_def
  by (auto split: if_splits)

lemma checkIPs_error_False: "checkIPs lib ip ips = (b, Some err) \<Longrightarrow> \<not> b"
  by (induction ips) (auto split: sum.splits if_splits)

lemma cacheOK_D:
  "cacheOK r sc \<Longrightarrow> LookupTXT r domain = Inr txtRecords \<Longrightarrow> Cache sc domain = Some spfRs \<Longrightarrow>
     findSPFRecord txtRecords = (spfRs, None)"
  unfolding cacheOK_def by fastforce

lemma cacheOK_New: "cacheOK r NewSPFChecker"
  by (simp add: cacheOK_def NewSPFChecker_def)

lemma cacheOK_Dump: "cacheOK r (DumpCache sc)"
  by (simp add: cacheOK_def DumpCache_def)

lemma LookupSPFRecords_cacheOK:
  "cacheOK r sc \<Longrightarrow> LookupSPFRecords r sc domain = (res, sc', qs) \<Longrightarrow> cacheOK r sc'"
  unfolding LookupSPFRecords_def cacheOK_def
  by (auto split: option.splits sum.splits if_splits prod.splits)

lemma Validate_state:
  "Validate r lib n sc ip domain = Some (Return (res, sc', qs)) \<Longrightarrow>
     \<exists>res0 qs0. LookupSPFRecords r sc domain = (res0, sc', qs0)"
  unfolding Validate_def Let_def
  by (auto split: prod.splits option.splits if_splits outcome.splits)

lemma Validate_cacheOK:
  "cacheOK r sc \<Longrightarrow> Validate r lib n sc ip domain = Some (Return (res, sc', qs)) \<Longrightarrow> cacheOK r sc'"
  by (auto dest!: Validate_state dest: LookupSPFRecords_cacheOK)

lemma index_last_Split:
  "index (strings_Split s '' '') (int (length (strings_Split s '' '')) - 1) =
     Some (last (strings_Split s '' ''))"
  by (rule index_last) (simp add: strings_Split_not_Nil)

lemma index_first_Split: "index (strings_Split s ''a'') 0 = Some (hd (strings_Split s ''a''))"
  by (rule index_first) (simp add: strings_Split_not_Nil)

lemma checkIPs_skip_misses:
  "\<forall>e\<in>set pre. misses lib ip e \<Longrightarrow> checkIPs lib ip (pre @ rest) = checkIPs lib ip rest"
  by (induction pre) (auto simp: misses_def split: sum.splits)

lemma checkIPs_all_miss: "\<forall>e\<in>set ips. misses lib ip e \<Longrightarrow> checkIPs lib ip ips = (False, None)"
  using checkIPs_skip_misses [of ips lib ip "[]"] by simp

lemma Validate_checkIPs:
  assumes lk: "LookupSPFRecords r sc domain = ((spfRecord # others, None), sc', qs)"
    and ex: "getIPsForRecord r n domain spfRecord = Some (Return ((ips, None), qs'))"
  shows "Validate r lib n sc ip domain = Some (Return (checkIPs lib ip ips, sc', qs @ qs'))"
  using lk ex
  by (simp add: Validate_def Let_def index_last_Split index_first_Split index_first)


















lemma LookupSPFRecords_found:
  "LookupSPFRecords r sc domain = ((spfRs, None), sc', qs) \<Longrightarrow>
     LookupSPFRecords r sc' domain = ((spfRs, None), sc', []) \<and>
     Cache sc' domain = Some spfRs \<and>
     qs = (if Cache sc domain = None then [QueryTXT domain] else [])"
  unfolding LookupSPFRecords_def
  by (auto split: option.splits sum.splits if_splits prod.splits)

lemma LookupSPFRecords_failed:
  "LookupSPFRecords r sc domain = ((spfRs, Some err), sc', qs) \<Longrightarrow>
     sc' = sc \<and> Cache sc domain = None \<and> qs = [QueryTXT domain]"
  unfolding LookupSPFRecords_def
  by (auto split: option.splits sum.splits if_splits prod.splits)

lemma Validate_found:
  "LookupSPFRecords r sc domain = ((spfRecord # others, None), sc', qs) \<Longrightarrow>
     Validate r lib n sc ip domain =
       (case getIPsForRecord r n domain spfRecord of
          None \<Rightarrow> None
        | Some Panic \<Rightarrow> Some Panic
        | Some (Return ((ips, Some err), qs')) \<Rightarrow> Some (Return ((False, Some err), sc', qs @ qs'))
        | Some (Return ((ips, None), qs')) \<Rightarrow> Some (Return (checkIPs lib ip ips, sc', qs @ qs')))"
  by (simp add: Validate_def Let_def index_last_Split index_first_Split index_first)

lemma Validate_found_Nil:
  "LookupSPFRecords r sc domain = (([], None), sc', qs) \<Longrightarrow>
     Validate r lib n sc ip domain = Some Panic"
  by (simp add: Validate_def index_def)

lemma Validate_failed:
  "LookupSPFRecords r sc domain = ((spfRs, Some err), sc', qs) \<Longrightarrow>
     Validate r lib n sc ip domain =
       Some (Return ((False, if err = ErrNoSPFRecords then None else Some err), sc', qs))"
  by (simp add: Validate_def)

lemma parseARecord_no_TXT: "parseARecord r domain = (res, qs) \<Longrightarrow> QueryTXT name \<notin> set qs"
  by (auto simp: parseARecord_def split: sum.splits)

lemma parseMXHosts_no_TXT:
  "parseMXHosts r hosts ipList = (res, qs) \<Longrightarrow> QueryTXT name \<notin> set qs"
proof (induction hosts arbitrary: ipList res qs)
  case Nil
  then show ?case by simp
next
  case (Cons host hosts)
  obtain lst err qa where pa: "parseARecord r host = ((lst, err), qa)"
    by (metis prod.exhaust)
  have qa: "QueryTXT name \<notin> set qa" using pa by (rule parseARecord_no_TXT)
  show ?case
  proof (cases err)
    case (Some e)
    with pa Cons.prems have "qs = qa" by simp
    with qa show ?thesis by simp
  next
    case None
    obtain res' qb where pm: "parseMXHosts r hosts (ipList @ lst) = (res', qb)"
      by (metis prod.exhaust)
    with pa None Cons.prems have "qs = qa @ qb" by simp
    with qa Cons.IH [OF pm] show ?thesis by simp
  qed
qed

lemma parseOtherRecord_no_TXT:
  "parseOtherRecord r domain record = (res, qs) \<Longrightarrow> QueryTXT name \<notin> set qs"
  by (auto simp: parseOtherRecord_def split: sum.splits prod.splits if_splits
      dest: parseARecord_no_TXT parseMXHosts_no_TXT)

lemma getIPsLoop_no_include:
  "\<forall>element\<in>set spfSections. \<not> strings_HasPrefix element ''include'' \<Longrightarrow>
   getIPsLoop r n domain spfSections cidrIPs = Some (Return (res, qs)) \<Longrightarrow>
   QueryTXT name \<notin> set qs"
proof (induction spfSections arbitrary: cidrIPs res qs)
  case Nil
  then show ?case by simp
next
  case (Cons element rest)
  from Cons.prems(1) have ninc: "\<not> strings_HasPrefix element ''include''"
    and rest: "\<forall>element\<in>set rest. \<not> strings_HasPrefix element ''include''"
    by simp_all
  note IH = Cons.IH [OF rest]
  show ?case
  proof (cases "strings_HasPrefix ''v=spf1'' element \<or> strings_HasPrefix element ''ip4'' \<or>
                \<not> (strings_ToLower element = ''a'' \<or> strings_ToLower element = ''mx'')")
    case True
    with ninc Cons.prems(2) obtain acc where
      "getIPsLoop r n domain rest acc = Some (Return (res, qs))"
      by (auto split: if_splits)
    then show ?thesis by (rule IH)
  next
    case False
    then have other: "\<not> strings_HasPrefix ''v=spf1'' element" "\<not> strings_HasPrefix element ''ip4''"
      "strings_ToLower element = ''a'' \<or> strings_ToLower element = ''mx''"
      by auto
    obtain lst err qa where po: "parseOtherRecord r domain element = ((lst, err), qa)"
      by (metis prod.exhaust)
    have qa: "QueryTXT name \<notin> set qa"
      using po by (rule parseOtherRecord_no_TXT)
    show ?thesis
    proof (cases err)
      case (Some e)
      with other ninc po Cons.prems(2) have "qs = qa" by auto
      with qa show ?thesis by simp
    next
      case None
      with other ninc po Cons.prems(2) obtain qb where
        run: "getIPsLoop r n domain rest (cidrIPs @ lst) = Some (Return (res, qb))"
        and qs: "qs = qa @ qb"
        by (auto split: option.splits outcome.splits prod.splits)
      from IH [OF run] qa qs show ?thesis by simp
    qed
  qed
qed












text \<open>
  Fuel: a call that returns or panics with some fuel does the same with more. So a result
  stated for some fuel is the result of the program, and \<^verbatim>\<open>None\<close> for every fuel is a
  call that never returns.
\<close>

lemma getIPsLoop_more_fuel:
  "getIPsLoop r n domain spfSections cidrIPs = Some out \<Longrightarrow> n \<le> n' \<Longrightarrow>
     getIPsLoop r n' domain spfSections cidrIPs = Some out"
proof (induction r n domain spfSections cidrIPs arbitrary: out n' rule: getIPsLoop.induct)
  case (1 r n domain cidrIPs)
  then show ?case by simp
next
  case (2 r n domain element rest cidrIPs)
  show ?case
  proof (cases "strings_HasPrefix ''v=spf1'' element")
    case True
    with "2.prems"(1) have "getIPsLoop r n domain rest cidrIPs = Some out" by simp
    from "2.IH"(1) [OF True this "2.prems"(2)] True show ?thesis by simp
  next
    case nv: False
    show ?thesis
    proof (cases "strings_HasPrefix element ''ip4''")
      case True
      with nv "2.prems"(1) have
        "getIPsLoop r n domain rest (cidrIPs @ [strings_Replace element ''ip4:'' []]) = Some out"
        by simp
      from "2.IH"(2) [OF nv True this "2.prems"(2)] nv True show ?thesis by simp
    next
      case ni: False
      show ?thesis
      proof (cases "strings_HasPrefix element ''include''")
        case inc: True
        let ?included = "strings_Replace element ''include:'' ''''"
        show ?thesis
        proof (cases "LookupTXT r ?included")
          case (Inl msg)
          with nv ni inc "2.prems" show ?thesis by (simp add: Let_def)
        next
          case (Inr txtRecords)
          obtain spfRecordList err where f: "findSPFRecord txtRecords = (spfRecordList, err)"
            by (metis prod.exhaust)
          show ?thesis
          proof (cases err)
            case (Some e)
            with nv ni inc Inr f "2.prems" show ?thesis by (simp add: Let_def)
          next
            case None
            show ?thesis
            proof (cases "index spfRecordList 0")
              case nopanic: None
              with nv ni inc Inr f \<open>err = None\<close> "2.prems" show ?thesis by (simp add: Let_def)
            next
              case (Some spfRecord)
              note facts = nv ni inc Inr f \<open>err = None\<close> Some
              from facts "2.prems"(1) obtain m where n: "n = Suc m"
                by (cases n) (simp_all add: Let_def)
              with "2.prems"(2) obtain m' where n': "n' = Suc m'" and le: "m \<le> m'"
                by (cases n') simp_all
              from facts n "2.prems"(1) obtain inner where
                i: "getIPsLoop r m ?included (strings_Split spfRecord '' '') [] = Some inner"
                by (auto simp: Let_def split: option.splits)
              have i': "getIPsLoop r m' ?included (strings_Split spfRecord '' '') [] = Some inner"
                using "2.IH"(3) [OF nv ni inc refl Inr f [symmetric] \<open>err = None\<close> Some n i le] .
              show ?thesis
              proof (cases inner)
                case Panic
                with facts n n' i i' "2.prems"(1) show ?thesis by (simp add: Let_def)
              next
                case (Return x)
                obtain recursiveList e qs where x: "x = ((recursiveList, e), qs)"
                  by (metis prod.exhaust)
                from facts n i Return x "2.prems"(1) obtain cont where
                  c: "getIPsLoop r n domain rest (cidrIPs @ recursiveList) = Some cont"
                  by (auto simp: Let_def split: option.splits)
                have c': "getIPsLoop r n' domain rest (cidrIPs @ recursiveList) = Some cont"
                  using "2.IH"(4) [OF nv ni inc refl Inr f [symmetric] \<open>err = None\<close> Some n i
                      Return x [symmetric] refl c "2.prems"(2)] .
                from facts n i Return x c "2.prems"(1) have
                  "out = (case cont of Panic \<Rightarrow> Panic
                          | Return (res, qs') \<Rightarrow> Return (res, QueryTXT ?included # qs @ qs'))"
                  by (auto simp: Let_def split: outcome.splits)
                with facts n' i' Return x c' show ?thesis
                  by (auto simp: Let_def split: outcome.splits)
              qed
            qed
          qed
        qed
      next
        case nc: False
        show ?thesis
        proof (cases "strings_ToLower element = ''a'' \<or> strings_ToLower element = ''mx''")
          case False
          with nv ni nc "2.prems"(1) have "getIPsLoop r n domain rest cidrIPs = Some out" by simp
          from "2.IH"(6) [OF nv ni nc False this "2.prems"(2)] nv ni nc False show ?thesis by simp
        next
          case True
          obtain otherRecord err qs where
            po: "parseOtherRecord r domain element = ((otherRecord, err), qs)"
            by (metis prod.exhaust)
          show ?thesis
          proof (cases err)
            case (Some e)
            with nv ni nc True po "2.prems" show ?thesis by simp
          next
            case None
            from nv ni nc True po None "2.prems"(1) obtain cont where
              c: "getIPsLoop r n domain rest (cidrIPs @ otherRecord) = Some cont"
              by (auto split: option.splits)
            have c': "getIPsLoop r n' domain rest (cidrIPs @ otherRecord) = Some cont"
              using "2.IH"(5) [OF nv ni nc True po [symmetric] refl None c "2.prems"(2)] .
            from nv ni nc True po None c c' "2.prems"(1) show ?thesis
              by (auto split: outcome.splits)
          qed
        qed
      qed
    qed
  qed
qed

lemma getIPsForRecord_more_fuel:
  "getIPsForRecord r n domain record = Some out \<Longrightarrow> n \<le> n' \<Longrightarrow>
     getIPsForRecord r n' domain record = Some out"
  unfolding getIPsForRecord_def by (rule getIPsLoop_more_fuel)

lemma Validate_more_fuel:
  assumes v: "Validate r lib n sc ip domain = Some out" and le: "n \<le> n'"
  shows "Validate r lib n' sc ip domain = Some out"
proof -
  obtain spfRs err sc1 q0 where lk: "LookupSPFRecords r sc domain = ((spfRs, err), sc1, q0)"
    by (metis prod.exhaust)
  show ?thesis
  proof (cases err)
    case (Some e)
    with lk v show ?thesis by (simp add: Validate_failed)
  next
    case None
    show ?thesis
    proof (cases spfRs)
      case Nil
      with lk None v show ?thesis by (simp add: Validate_found_Nil)
    next
      case (Cons spfRecord others)
      with lk None have f: "LookupSPFRecords r sc domain = ((spfRecord # others, None), sc1, q0)"
        by simp
      from v Validate_found [OF f, of lib n ip] obtain g where
        g: "getIPsForRecord r n domain spfRecord = Some g"
        by (auto split: option.splits)
      from getIPsForRecord_more_fuel [OF g le] g v show ?thesis
        by (simp add: Validate_found [OF f])
    qed
  qed
qed

section \<open>The claims\<close>

text \<open>
  C1. The claim: when the queried domain has no TXT record starting with \<^verbatim>\<open>v=spf1\<close>,
  \<^verbatim>\<open>Validate\<close> returns \<^verbatim>\<open>(true, nil)\<close>. What the code does on a new checker, for every
  address: a domain without any TXT record gets \<^verbatim>\<open>(false, nil)\<close>, and a domain whose TXT
  records are all of another kind gets \<^verbatim>\<open>false\<close> with the error of \<^verbatim>\<open>findSPFRecord\<close>.
\<close>

theorem C1_no_policy_is_not_allowed:
  "Validate (zone [(''cathalgarvey.me'', [])]) lib n NewSPFChecker ip ''cathalgarvey.me'' =
     Some (Return ((False, None), NewSPFChecker, [QueryTXT ''cathalgarvey.me'']))
   \<and> Validate (zone [(''cathalgarvey.me'', [''keybase-site-verification=abc''])]) lib n
       NewSPFChecker ip ''cathalgarvey.me'' =
     Some (Return ((False, Some TooManySPFRecordsFound), NewSPFChecker,
                   [QueryTXT ''cathalgarvey.me'']))"
  by (simp add: run_defs)

text \<open>
  C2. The claim: a lookup or parse failure anywhere in the expansion, also inside an
  \<^verbatim>\<open>include\<close>, aborts the resolution and is returned. What the code does: the policy of
  \<^verbatim>\<open>example.org\<close> includes \<^verbatim>\<open>inner.example\<close>, whose policy includes a name whose TXT
  lookup fails. The failure ends the expansion of \<^verbatim>\<open>inner.example\<close> only; the outer loop
  goes on to \<^verbatim>\<open>ip4:192.0.2.1\<close>, and \<^verbatim>\<open>Validate\<close> returns \<^verbatim>\<open>(true, nil)\<close>. The same
  failing name included by \<^verbatim>\<open>example.net\<close> itself is returned as the error.
\<close>

theorem C2_error_inside_include_is_dropped:
  "Validate
     (zone [(''example.org'', [''v=spf1 include:inner.example ip4:192.0.2.1 -all'']),
            (''inner.example'', [''v=spf1 include:missing.example -all''])])
     ipv4lib (Suc (Suc 0)) NewSPFChecker ''192.0.2.1'' ''example.org'' =
     Some (Return ((True, None),
       \<lparr>Cache = [''example.org'' \<mapsto> [''v=spf1 include:inner.example ip4:192.0.2.1 -all'']]\<rparr>,
       [QueryTXT ''example.org'', QueryTXT ''inner.example'', QueryTXT ''missing.example'']))
   \<and> Validate
     (zone [(''example.net'', [''v=spf1 include:missing.example ip4:192.0.2.1 -all''])])
     ipv4lib (Suc (Suc 0)) NewSPFChecker ''192.0.2.1'' ''example.net'' =
     Some (Return ((False, Some (LibError ''no such host'')),
       \<lparr>Cache = [''example.net'' \<mapsto> [''v=spf1 include:missing.example ip4:192.0.2.1 -all'']]\<rparr>,
       [QueryTXT ''example.net'', QueryTXT ''missing.example'']))"
  by (simp add: run_defs ipv4_defs)

text \<open>
  C3. The claim: the second of two \<^verbatim>\<open>Validate\<close> calls with the same address and domain
  gives the same result and makes no TXT lookup, also none for the \<^verbatim>\<open>include\<close> mechanisms
  of the policy. What the code does: only the record of the queried domain is cached.
  On the second call for \<^verbatim>\<open>example.org\<close>, whose record includes \<^verbatim>\<open>other.example\<close>, the
  TXT lookup of \<^verbatim>\<open>other.example\<close> is made again.
\<close>

theorem C3_counterexample:
  "Validate
     (zone [(''example.org'', [''v=spf1 include:other.example'']),
            (''other.example'', [''v=spf1 ip4:10.0.0.0/8''])])
     ipv4lib (Suc 0) NewSPFChecker ''10.11.12.13'' ''example.org'' =
     Some (Return ((True, None),
       \<lparr>Cache = [''example.org'' \<mapsto> [''v=spf1 include:other.example'']]\<rparr>,
       [QueryTXT ''example.org'', QueryTXT ''other.example'']))
   \<and> Validate
     (zone [(''example.org'', [''v=spf1 include:other.example'']),
            (''other.example'', [''v=spf1 ip4:10.0.0.0/8''])])
     ipv4lib (Suc 0) \<lparr>Cache = [''example.org'' \<mapsto> [''v=spf1 include:other.example'']]\<rparr>
     ''10.11.12.13'' ''example.org'' =
     Some (Return ((True, None),
       \<lparr>Cache = [''example.org'' \<mapsto> [''v=spf1 include:other.example'']]\<rparr>,
       [QueryTXT ''other.example'']))"
  by (simp add: run_defs ipv4_defs)

text \<open>
  C3, amended. With a resolver whose answers do not change, a \<^verbatim>\<open>Validate\<close> call that
  returns is followed by a second call, with the same address and domain, that returns
  the same pair and leaves the checker as the first call left it. If the first call found
  no record for the domain or failed in its lookup, nothing is cached, and each of the
  two calls makes the one TXT lookup of the domain. If the record of the domain is cached
  after the first call, the second call makes no lookup for the record of the domain:
  its lookups are those that \<^verbatim>\<open>getIPsForRecord\<close> makes, which the first call made too,
  after its own lookup of the domain when the cache had no entry. They include the TXT
  lookup of every \<^verbatim>\<open>include\<close>; when no section of the record starts with \<^verbatim>\<open>include\<close>,
  the second call makes no TXT lookup at all.
\<close>

theorem C3_second_call_repeats_include_lookups:
  assumes first: "Validate r lib n sc ip domain = Some (Return (res, sc', qs))"
  shows "\<exists>qs'. Validate r lib n sc' ip domain = Some (Return (res, sc', qs')) \<and>
           (Cache sc' domain = None \<longrightarrow> qs = [QueryTXT domain] \<and> qs' = [QueryTXT domain]) \<and>
           (\<forall>spfRecord others. Cache sc' domain = Some (spfRecord # others) \<longrightarrow>
              qs = (if Cache sc domain = None then [QueryTXT domain] else []) @ qs' \<and>
              (\<exists>ips. getIPsForRecord r n domain spfRecord = Some (Return (ips, qs'))) \<and>
              ((\<forall>element\<in>set (strings_Split spfRecord '' ''). \<not> strings_HasPrefix element ''include'')
                 \<longrightarrow> (\<forall>name. QueryTXT name \<notin> set qs')))"
proof -
  obtain spfRs err sc1 q0 where lk: "LookupSPFRecords r sc domain = ((spfRs, err), sc1, q0)"
    by (metis prod.exhaust)
  show ?thesis
  proof (cases err)
    case (Some e)
    from lk Some have f: "LookupSPFRecords r sc domain = ((spfRs, Some e), sc1, q0)" by simp
    from LookupSPFRecords_failed [OF f] have same: "sc1 = sc" and miss: "Cache sc domain = None"
      and q0: "q0 = [QueryTXT domain]"
      by simp_all
    from first Validate_failed [OF f, of lib n ip] have
      "sc' = sc" "qs = [QueryTXT domain]"
      using same q0 by simp_all
    with first miss show ?thesis by simp
  next
    case None
    with lk have f: "LookupSPFRecords r sc domain = ((spfRs, None), sc1, q0)" by simp
    from LookupSPFRecords_found [OF f]
    have again: "LookupSPFRecords r sc1 domain = ((spfRs, None), sc1, [])"
      and hit: "Cache sc1 domain = Some spfRs"
      and q0: "q0 = (if Cache sc domain = None then [QueryTXT domain] else [])"
      by simp_all
    show ?thesis
    proof (cases spfRs)
      case Nil
      with f first Validate_found_Nil [of r sc domain sc1 q0 lib n ip] show ?thesis by simp
    next
      case (Cons spfRecord others)
      note f' = f [unfolded Cons] and again' = again [unfolded Cons]
      note v1 = Validate_found [OF f', of lib n ip]
      note v2 = Validate_found [OF again', of lib n ip]
      from first v1 obtain ips e qi where
        run: "getIPsForRecord r n domain spfRecord = Some (Return ((ips, e), qi))"
        by (auto split: option.splits outcome.splits prod.splits)
      from first v1 run have sc': "sc' = sc1" and qs: "qs = q0 @ qi"
        and res: "res = (case e of Some err \<Rightarrow> (False, Some err) | None \<Rightarrow> checkIPs lib ip ips)"
        by (auto split: option.splits)
      have second: "Validate r lib n sc' ip domain = Some (Return (res, sc', qi))"
        using v2 run sc' res by (auto split: option.splits)
      have noinc: "\<forall>name. QueryTXT name \<notin> set qi"
        if "\<forall>element\<in>set (strings_Split spfRecord '' ''). \<not> strings_HasPrefix element ''include''"
        using getIPsLoop_no_include [OF that run [unfolded getIPsForRecord_def]] by blast
      show ?thesis
        using second hit Cons sc' qs q0 run noinc by auto
    qed
  qed
qed

theorem C3_witness:
  "Validate (zone [(''example.org'', [''v=spf1 ip4:10.0.0.0/8 -all''])]) ipv4lib 0 NewSPFChecker
     ''10.11.12.13'' ''example.org'' =
     Some (Return ((True, None), \<lparr>Cache = [''example.org'' \<mapsto> [''v=spf1 ip4:10.0.0.0/8 -all'']]\<rparr>,
                   [QueryTXT ''example.org'']))
   \<and> Validate (zone [(''example.org'', [''v=spf1 ip4:10.0.0.0/8 -all''])]) ipv4lib 0
       \<lparr>Cache = [''example.org'' \<mapsto> [''v=spf1 ip4:10.0.0.0/8 -all'']]\<rparr>
       ''10.11.12.13'' ''example.org'' =
     Some (Return ((True, None), \<lparr>Cache = [''example.org'' \<mapsto> [''v=spf1 ip4:10.0.0.0/8 -all'']]\<rparr>,
                   []))"
proof -
  let ?z = "zone [(''example.org'', [''v=spf1 ip4:10.0.0.0/8 -all''])]"
  let ?sc = "\<lparr>Cache = [''example.org'' \<mapsto> [''v=spf1 ip4:10.0.0.0/8 -all'']]\<rparr>"
  have first: "Validate ?z ipv4lib 0 NewSPFChecker ''10.11.12.13'' ''example.org'' =
                 Some (Return ((True, None), ?sc, [QueryTXT ''example.org'']))"
    by (simp add: run_defs ipv4_defs)
  from C3_second_call_repeats_include_lookups [OF first] obtain qs' where
    second: "Validate ?z ipv4lib 0 ?sc ''10.11.12.13'' ''example.org'' =
               Some (Return ((True, None), ?sc, qs'))"
    and hit: "\<forall>spfRecord others. Cache ?sc ''example.org'' = Some (spfRecord # others) \<longrightarrow>
              [QueryTXT ''example.org''] =
                (if Cache NewSPFChecker ''example.org'' = None then [QueryTXT ''example.org''] else [])
                @ qs'"
    by blast
  have "Cache ?sc ''example.org'' = Some (''v=spf1 ip4:10.0.0.0/8 -all'' # [])" by simp
  with hit have "[QueryTXT ''example.org''] =
      (if Cache NewSPFChecker ''example.org'' = None then [QueryTXT ''example.org''] else []) @ qs'"
    by blast
  then have "qs' = []" by (simp add: NewSPFChecker_def)
  with first second show ?thesis by simp
qed

text \<open>
  C4. When the TXT records of the domain hold two or more strings that begin with
  \<^verbatim>\<open>v=spf1\<close>, \<^verbatim>\<open>Validate\<close> on a checker with a sound cache returns \<^verbatim>\<open>false\<close> and the error
  of \<^verbatim>\<open>findSPFRecord\<close>, after the one TXT lookup; nothing is stored in the cache and no
  mechanism is expanded.
\<close>

theorem C4_ambiguous_policy_is_an_error:
  assumes ok: "cacheOK r sc"
    and look: "LookupTXT r domain = Inr txtRecords"
    and two: "2 \<le> length (filter (\<lambda>record. strings_HasPrefix record ''v=spf1'') txtRecords)"
  shows "Validate r lib n sc ip domain =
           Some (Return ((False, Some TooManySPFRecordsFound), sc, [QueryTXT domain]))"
proof -
  have f: "findSPFRecord txtRecords = ([], Some TooManySPFRecordsFound)"
    using two by (simp add: findSPFRecord_def Let_def)
  have miss: "Cache sc domain = None"
  proof (cases "Cache sc domain")
    case (Some spfRs)
    with ok look have "findSPFRecord txtRecords = (spfRs, None)"
      by (rule cacheOK_D)
    with f show ?thesis by simp
  qed simp
  have ne: "txtRecords \<noteq> []" using two by auto
  have "LookupSPFRecords r sc domain =
          (([], Some TooManySPFRecordsFound), sc, [QueryTXT domain])"
    using miss look f ne by (simp add: LookupSPFRecords_def)
  then show ?thesis by (simp add: Validate_def)
qed

theorem C4_witness:
  "cacheOK (zone [(''example.org'', [''v=spf1 ip4:192.0.2.1'', ''x'', ''v=spf1 -all''])])
     NewSPFChecker
   \<and> Validate (zone [(''example.org'', [''v=spf1 ip4:192.0.2.1'', ''x'', ''v=spf1 -all''])])
       ipv4lib 0 NewSPFChecker ''192.0.2.1'' ''example.org'' =
     Some (Return ((False, Some TooManySPFRecordsFound), NewSPFChecker,
                   [QueryTXT ''example.org'']))"
proof -
  let ?r = "zone [(''example.org'', [''v=spf1 ip4:192.0.2.1'', ''x'', ''v=spf1 -all''])]"
  have ok: "cacheOK ?r NewSPFChecker" by (rule cacheOK_New)
  have look: "LookupTXT ?r ''example.org'' = Inr [''v=spf1 ip4:192.0.2.1'', ''x'', ''v=spf1 -all'']"
    by (simp add: zone_def)
  have two: "2 \<le> length (filter (\<lambda>record. strings_HasPrefix record ''v=spf1'')
                      [''v=spf1 ip4:192.0.2.1'', ''x'', ''v=spf1 -all''])"
    by (simp add: strings_HasPrefix_def)
  show ?thesis
    using ok C4_ambiguous_policy_is_an_error [OF ok look two, of ipv4lib 0 "''192.0.2.1''"]
    by simp
qed

text \<open>
  C5. When the record of the domain has been found and its mechanisms have been
  expanded to the list \<^verbatim>\<open>ips\<close> without error, \<^verbatim>\<open>Validate\<close> returns the result of the scan
  of \<^verbatim>\<open>ips\<close> in order. Let \<^verbatim>\<open>x\<close> be the first element that does not parse to a
  block without the address: if \<^verbatim>\<open>x\<close>, with its prefix length added, fails to parse, the
  result is \<^verbatim>\<open>false\<close> with that error, whatever follows \<^verbatim>\<open>x\<close>; if its block contains
  the address, the result is \<^verbatim>\<open>(true, nil)\<close>. If every element parses to a block without
  the address, the result is \<^verbatim>\<open>(false, nil)\<close>.
\<close>

theorem C5_membership_scan:
  assumes lk: "LookupSPFRecords r sc domain = ((spfRecord # others, None), sc', qs)"
    and ex: "getIPsForRecord r n domain spfRecord = Some (Return ((ips, None), qs'))"
  shows "\<exists>res. Validate r lib n sc ip domain = Some (Return (res, sc', qs @ qs')) \<and>
           (\<forall>pre x post. ips = pre @ x # post \<and> (\<forall>e\<in>set pre. misses lib ip e) \<longrightarrow>
              (case ParseCIDR lib (withCidr x) of
                 Inl msg \<Rightarrow> res = (False, Some (LibError msg))
               | Inr cidrnet \<Rightarrow> Contains lib cidrnet (ParseIP lib ip) \<longrightarrow> res = (True, None))) \<and>
           ((\<forall>e\<in>set ips. misses lib ip e) \<longrightarrow> res = (False, None))"
proof (intro exI conjI allI impI)
  show "Validate r lib n sc ip domain = Some (Return (checkIPs lib ip ips, sc', qs @ qs'))"
    using lk ex by (rule Validate_checkIPs)
next
  fix pre x post
  assume "ips = pre @ x # post \<and> (\<forall>e\<in>set pre. misses lib ip e)"
  then have "checkIPs lib ip ips = checkIPs lib ip (x # post)"
    by (simp add: checkIPs_skip_misses)
  then show "case ParseCIDR lib (withCidr x) of
               Inl msg \<Rightarrow> checkIPs lib ip ips = (False, Some (LibError msg))
             | Inr cidrnet \<Rightarrow> Contains lib cidrnet (ParseIP lib ip) \<longrightarrow>
                 checkIPs lib ip ips = (True, None)"
    by (simp split: sum.splits)
next
  assume "\<forall>e\<in>set ips. misses lib ip e"
  then show "checkIPs lib ip ips = (False, None)" by (rule checkIPs_all_miss)
qed

theorem C5_witness:
  "Validate (zone [(''example.org'',
       [''v=spf1 ip4:10.0.0.0/8 ip4:192.0.2.1 ip4:nonsense ip4:203.0.113.0/24''])])
     ipv4lib 0 NewSPFChecker ''192.0.2.1'' ''example.org'' =
     Some (Return ((True, None),
       \<lparr>Cache = [''example.org'' \<mapsto>
          [''v=spf1 ip4:10.0.0.0/8 ip4:192.0.2.1 ip4:nonsense ip4:203.0.113.0/24'']]\<rparr>,
       [QueryTXT ''example.org'']))
   \<and> Validate (zone [(''example.org'',
       [''v=spf1 ip4:10.0.0.0/8 ip4:192.0.2.1 ip4:nonsense ip4:203.0.113.0/24''])])
     ipv4lib 0 NewSPFChecker ''203.0.113.9'' ''example.org'' =
     Some (Return ((False, Some (LibError ''invalid CIDR address: nonsense/32'')),
       \<lparr>Cache = [''example.org'' \<mapsto>
          [''v=spf1 ip4:10.0.0.0/8 ip4:192.0.2.1 ip4:nonsense ip4:203.0.113.0/24'']]\<rparr>,
       [QueryTXT ''example.org'']))"
proof -
  let ?rec = "''v=spf1 ip4:10.0.0.0/8 ip4:192.0.2.1 ip4:nonsense ip4:203.0.113.0/24''"
  let ?z = "zone [(''example.org'', [?rec])]"
  let ?sc = "\<lparr>Cache = [''example.org'' \<mapsto> [?rec]]\<rparr>"
  let ?ips = "[''10.0.0.0/8'', ''192.0.2.1'', ''nonsense'', ''203.0.113.0/24'']"
  have lk: "LookupSPFRecords ?z NewSPFChecker ''example.org'' =
              (([?rec] @ [], None), ?sc, [QueryTXT ''example.org''])"
    by (simp add: LookupSPFRecords_def NewSPFChecker_def zone_def findSPFRecord_def
        strings_HasPrefix_def)
  then have lk': "LookupSPFRecords ?z NewSPFChecker ''example.org'' =
              ((?rec # [], None), ?sc, [QueryTXT ''example.org''])"
    by simp
  have ex: "getIPsForRecord ?z 0 ''example.org'' ?rec = Some (Return ((?ips, None), []))"
    by (simp add: getIPsForRecord_def strings_Split_def strings_HasPrefix_def
        strings_Replace_def)
  have m1: "\<forall>e\<in>set [''10.0.0.0/8'']. misses ipv4lib ''192.0.2.1'' e"
    by (simp add: misses_def withCidr_def ipv4_defs strings_Split_def)
  have m2: "\<forall>e\<in>set [''10.0.0.0/8'', ''192.0.2.1'']. misses ipv4lib ''203.0.113.9'' e"
    by (simp add: misses_def withCidr_def ipv4_defs strings_Split_def)
  have p1: "ParseCIDR ipv4lib (withCidr ''192.0.2.1'') = Inr (3221225985, 32)"
    by (simp add: withCidr_def ipv4_defs strings_Split_def)
  have c1: "Contains ipv4lib (3221225985, 32) (ParseIP ipv4lib ''192.0.2.1'')"
    by (simp add: ipv4_defs strings_Split_def)
  have p2: "ParseCIDR ipv4lib (withCidr ''nonsense'') = Inl ''invalid CIDR address: nonsense/32''"
    by (simp add: withCidr_def ipv4_defs strings_Split_def)
  from C5_membership_scan [OF lk' ex, of ipv4lib "''192.0.2.1''"]
  obtain res where
    v: "Validate ?z ipv4lib 0 NewSPFChecker ''192.0.2.1'' ''example.org'' =
          Some (Return (res, ?sc, [QueryTXT ''example.org''] @ []))"
    and a: "\<forall>pre x post. ?ips = pre @ x # post \<and> (\<forall>e\<in>set pre. misses ipv4lib ''192.0.2.1'' e) \<longrightarrow>
              (case ParseCIDR ipv4lib (withCidr x) of
                 Inl msg \<Rightarrow> res = (False, Some (LibError msg))
               | Inr cidrnet \<Rightarrow>
                   Contains ipv4lib cidrnet (ParseIP ipv4lib ''192.0.2.1'') \<longrightarrow> res = (True, None))"
    by blast
  have "?ips = [''10.0.0.0/8''] @ ''192.0.2.1'' # [''nonsense'', ''203.0.113.0/24'']" by simp
  with a m1 have
    "case ParseCIDR ipv4lib (withCidr ''192.0.2.1'') of
       Inl msg \<Rightarrow> res = (False, Some (LibError msg))
     | Inr cidrnet \<Rightarrow>
         Contains ipv4lib cidrnet (ParseIP ipv4lib ''192.0.2.1'') \<longrightarrow> res = (True, None)"
    by blast
  with p1 c1 have r1: "res = (True, None)" by simp
  from C5_membership_scan [OF lk' ex, of ipv4lib "''203.0.113.9''"]
  obtain res' where
    v': "Validate ?z ipv4lib 0 NewSPFChecker ''203.0.113.9'' ''example.org'' =
          Some (Return (res', ?sc, [QueryTXT ''example.org''] @ []))"
    and a': "\<forall>pre x post. ?ips = pre @ x # post \<and> (\<forall>e\<in>set pre. misses ipv4lib ''203.0.113.9'' e) \<longrightarrow>
              (case ParseCIDR ipv4lib (withCidr x) of
                 Inl msg \<Rightarrow> res' = (False, Some (LibError msg))
               | Inr cidrnet \<Rightarrow>
                   Contains ipv4lib cidrnet (ParseIP ipv4lib ''203.0.113.9'') \<longrightarrow> res' = (True, None))"
    by blast
  have "?ips = [''10.0.0.0/8'', ''192.0.2.1''] @ ''nonsense'' # [''203.0.113.0/24'']" by simp
  with a' m2 have
    "case ParseCIDR ipv4lib (withCidr ''nonsense'') of
       Inl msg \<Rightarrow> res' = (False, Some (LibError msg))
     | Inr cidrnet \<Rightarrow>
         Contains ipv4lib cidrnet (ParseIP ipv4lib ''203.0.113.9'') \<longrightarrow> res' = (True, None)"
    by blast
  with p2 have r2: "res' = (False, Some (LibError ''invalid CIDR address: nonsense/32''))" by simp
  from v r1 v' r2 show ?thesis by simp
qed







text \<open>
  C9. The statements of \<^verbatim>\<open>Validate\<close> that split the record at spaces, take the last
  piece, split it at the letter \<^verbatim>\<open>a\<close> and keep the first part have no effect: for every
  resolver, library, checker, address and domain, \<^verbatim>\<open>Validate\<close> gives what the function
  without these statements gives, the same pair, the same checker and the same lookups.
  Neither index can be out of range, since \<^verbatim>\<open>strings.Split\<close> with a non-empty separator
  never returns an empty slice.
\<close>

theorem C9_allRecord_is_dead_code:
  "Validate r lib n sc ip domain = Validate_without_allRecord r lib n sc ip domain"
  unfolding Validate_def Validate_without_allRecord_def Let_def
  by (simp add: index_last_Split index_first_Split split: prod.splits option.splits)

text \<open>
  C10. Whenever \<^verbatim>\<open>Validate\<close> returns an error, the boolean it returns with it is
  \<^verbatim>\<open>false\<close>, whatever the checker, the resolver and the address library are.
\<close>

theorem C10_error_implies_not_allowed:
  "Validate r lib n sc ip domain = Some (Return ((allowed, Some err), sc', qs)) \<Longrightarrow> \<not> allowed"
  unfolding Validate_def Let_def
  by (auto split: prod.splits option.splits if_splits outcome.splits dest: checkIPs_error_False)

theorem C10_witness:
  "\<exists>allowed err sc' qs.
     Validate (zone [(''example.org'', [''v=spf1 ip4:192.0.2.1/33''])]) ipv4lib 0 NewSPFChecker
       ''192.0.2.1'' ''example.org'' = Some (Return ((allowed, Some err), sc', qs))
     \<and> \<not> allowed"
proof -
  have h: "Validate (zone [(''example.org'', [''v=spf1 ip4:192.0.2.1/33''])]) ipv4lib 0
             NewSPFChecker ''192.0.2.1'' ''example.org'' =
           Some (Return ((False, Some (LibError ''invalid CIDR address: 192.0.2.1/33'')),
             \<lparr>Cache = [''example.org'' \<mapsto> [''v=spf1 ip4:192.0.2.1/33'']]\<rparr>,
             [QueryTXT ''example.org'']))"
    by (simp add: run_defs ipv4_defs)
  from C10_error_implies_not_allowed [OF h] h show ?thesis by blast
qed

end
